theory Spec2Isabelle
  imports Complex_Main "HOL-Library.Word" "HOL-Library.Log_Nat"
begin

section \<open>The host language: numbers, strings and the Date abstraction\<close>

text \<open>
  The page script \<^verbatim>\<open>static/js/scripts.js\<close> is JavaScript. Apart from the random
  number and its product with the length, every Number that the script handles is either
  an integer of magnitude below \<open>2^53\<close> (a time value, a calendar field, a day count, an
  index) or NaN, so such a Number is modelled as \<open>int option\<close> with \<open>None\<close> for NaN; on
  that range the double arithmetic of the host is exact.
\<close>

type_synonym number = "int option"

abbreviation NaN :: number where "NaN \<equiv> None"

text \<open>Binary minus on Numbers: NaN is contagious.\<close>

definition num_sub :: "number \<Rightarrow> number \<Rightarrow> number" where
  "num_sub a b = (case a of None \<Rightarrow> NaN | Some x \<Rightarrow> (case b of None \<Rightarrow> NaN | Some y \<Rightarrow> Some (x - y)))"

text \<open>
  \<^verbatim>\<open>Math.floor(a / c)\<close> for a positive integer constant \<open>c\<close>: the floor of the exact
  quotient, which is \<open>div\<close> on \<open>int\<close>.
\<close>

definition floor_div :: "number \<Rightarrow> int \<Rightarrow> number" where
  "floor_div a c = (case a of None \<Rightarrow> NaN | Some x \<Rightarrow> Some (x div c))"

text \<open>
  The remainder operator \<^verbatim>\<open>%\<close>: NaN when an operand is NaN or the divisor is zero,
  otherwise the remainder of the truncating division, which takes the sign of the dividend.
\<close>

definition js_rem :: "number \<Rightarrow> number \<Rightarrow> number" where
  "js_rem a b =
     (case a of None \<Rightarrow> NaN
      | Some n \<Rightarrow> (case b of None \<Rightarrow> NaN
          | Some d \<Rightarrow> if d = 0 then NaN else Some (sgn n * (\<bar>n\<bar> mod \<bar>d\<bar>))))"

subsection \<open>The random number and its product with the length\<close>

text \<open>
  \<^verbatim>\<open>Math.random()\<close> returns a double that is at least 0 and less than 1. Every such
  double is \<open>k * 2^-1074\<close> for a natural number \<open>k\<close> (\<open>2^-1074\<close> is the least positive
  double), and the largest of them is \<open>1 - 2^-53\<close>, where \<open>k = 2^1074 - 2^1021\<close>. In this
  subsection a double \<open>x\<close> is given by the integer \<open>k\<close> with \<open>x = k * 2^-1074\<close>.
  \<open>randomValue\<close> admits every \<open>k\<close> of that range, the doubles among them.
\<close>

definition randomValue :: "int \<Rightarrow> bool" where
  "randomValue k \<longleftrightarrow> 0 \<le> k \<and> k \<le> 2 ^ 1074 - 2 ^ 1021"

text \<open>
  The nearest double to \<open>p * 2^-1074\<close> for \<open>p \<ge> 0\<close>, as its numerator: \<open>p\<close> itself when
  it has at most 53 binary digits (below \<open>2^52\<close> these are the subnormal doubles),
  otherwise \<open>p\<close> rounded to 53 significant digits, a tie going to the even significand.
\<close>

definition round53 :: "int \<Rightarrow> int" where
  "round53 p =
     (if bitlen p \<le> 53 then p
      else (let u = 2 ^ nat (bitlen p - 53); q = p div u; rest = p mod u
            in if 2 * rest < u \<or> (2 * rest = u \<and> even q) then q * u else (q + 1) * u))"

text \<open>
  The product \<^verbatim>\<open>x * n\<close> of the double \<open>k * 2^-1074\<close> and an integer \<open>n\<close> (a length, itself
  a double): the exact product rounded to the nearest double.
\<close>

definition double_times :: "int \<Rightarrow> int \<Rightarrow> int" where
  "double_times k n = round53 (k * n)"

text \<open>\<^verbatim>\<open>Math.floor\<close> of the double \<open>p * 2^-1074\<close>, an integer.\<close>

definition Math_floor :: "int \<Rightarrow> number" where
  "Math_floor p = Some (p div 2 ^ 1074)"

subsection \<open>Day number and year of a time value (ECMA-262, Date objects)\<close>

definition msPerDay :: int where
  "msPerDay = 86400000"

definition Day :: "int \<Rightarrow> int" where
  "Day t = t div msPerDay"

definition DaysInYear :: "int \<Rightarrow> int" where
  "DaysInYear y =
     (if y mod 4 \<noteq> 0 then 365
      else if y mod 100 \<noteq> 0 then 366
      else if y mod 400 \<noteq> 0 then 365
      else 366)"

definition DayFromYear :: "int \<Rightarrow> int" where
  "DayFromYear y = 365 * (y - 1970) + (y - 1969) div 4 - (y - 1901) div 100 + (y - 1601) div 400"

definition TimeFromYear :: "int \<Rightarrow> int" where
  "TimeFromYear y = msPerDay * DayFromYear y"

text \<open>
  The standard defines \<open>YearFromTime t\<close> as the largest \<open>y\<close> with
  \<open>TimeFromYear y \<le> t\<close>. The executable form starts from the estimate given by the mean
  length of a Gregorian year (146097 days in 400 years), which is off by at most one;
  \<open>YearFromTime_bounds\<close> and \<open>YearFromTime_unique\<close> below show that it is the year the
  standard defines.
\<close>

definition YearFromTime :: "int \<Rightarrow> int" where
  "YearFromTime t =
     (let y = 1970 + (400 * Day t) div 146097
      in if TimeFromYear (y + 1) \<le> t then y + 1
         else if TimeFromYear y \<le> t then y
         else y - 1)"

definition InLeapYear :: "int \<Rightarrow> int" where
  "InLeapYear t = (if DaysInYear (YearFromTime t) = 366 then 1 else 0)"

definition DayWithinYear :: "int \<Rightarrow> int" where
  "DayWithinYear t = Day t - DayFromYear (YearFromTime t)"

definition MonthFromTime :: "int \<Rightarrow> int" where
  "MonthFromTime t =
     (let d = DayWithinYear t; l = InLeapYear t
      in if d < 31 then 0
         else if d < 59 + l then 1
         else if d < 90 + l then 2
         else if d < 120 + l then 3
         else if d < 151 + l then 4
         else if d < 181 + l then 5
         else if d < 212 + l then 6
         else if d < 243 + l then 7
         else if d < 273 + l then 8
         else if d < 304 + l then 9
         else if d < 334 + l then 10
         else 11)"

definition DateFromTime :: "int \<Rightarrow> int" where
  "DateFromTime t =
     (let d = DayWithinYear t; l = InLeapYear t; m = MonthFromTime t
      in if m = 0 then d + 1
         else if m = 1 then d - 30
         else if m = 2 then d - 58 - l
         else if m = 3 then d - 89 - l
         else if m = 4 then d - 119 - l
         else if m = 5 then d - 150 - l
         else if m = 6 then d - 180 - l
         else if m = 7 then d - 211 - l
         else if m = 8 then d - 242 - l
         else if m = 9 then d - 272 - l
         else if m = 10 then d - 303 - l
         else d - 333 - l)"

subsection \<open>Building a time value: \<^verbatim>\<open>Date.UTC\<close>\<close>

text \<open>
  \<open>MakeDay\<close> asks for the day number of the first of month \<open>mn\<close> in year \<open>ym\<close>:
  the first day of the year plus the days of the months before, which \<open>monthStart\<close>
  tabulates (\<open>l\<close> is 1 in a leap year).
\<close>

definition monthStart :: "int \<Rightarrow> int \<Rightarrow> int" where
  "monthStart mn l =
     (if mn = 0 then 0
      else if mn = 1 then 31
      else if mn = 2 then 59 + l
      else if mn = 3 then 90 + l
      else if mn = 4 then 120 + l
      else if mn = 5 then 151 + l
      else if mn = 6 then 181 + l
      else if mn = 7 then 212 + l
      else if mn = 8 then 243 + l
      else if mn = 9 then 273 + l
      else if mn = 10 then 304 + l
      else 334 + l)"

definition MakeDay :: "number \<Rightarrow> number \<Rightarrow> number \<Rightarrow> number" where
  "MakeDay year month date =
     (case year of None \<Rightarrow> NaN
      | Some y \<Rightarrow> (case month of None \<Rightarrow> NaN
          | Some m \<Rightarrow> (case date of None \<Rightarrow> NaN
              | Some dt \<Rightarrow>
                  (let ym = y + m div 12; mn = m mod 12
                   in Some (DayFromYear ym
                            + monthStart mn (if DaysInYear ym = 366 then 1 else 0)
                            + dt - 1)))))"

definition MakeDate :: "number \<Rightarrow> int \<Rightarrow> number" where
  "MakeDate day time = (case day of None \<Rightarrow> NaN | Some d \<Rightarrow> Some (d * msPerDay + time))"

definition TimeClip :: "number \<Rightarrow> number" where
  "TimeClip time =
     (case time of None \<Rightarrow> NaN
      | Some t \<Rightarrow> if \<bar>t\<bar> > 8640000000000000 then NaN else Some t)"

text \<open>A year from 0 to 99 given to \<^verbatim>\<open>Date.UTC\<close> stands for 1900 to 1999.\<close>

definition fullYear :: "int \<Rightarrow> int" where
  "fullYear y = (if 0 \<le> y \<and> y \<le> 99 then 1900 + y else y)"

definition MakeFullYear :: "number \<Rightarrow> number" where
  "MakeFullYear year = (case year of None \<Rightarrow> NaN | Some y \<Rightarrow> Some (fullYear y))"

text \<open>\<^verbatim>\<open>Date.UTC(year, month, date)\<close>: hours, minutes, seconds and milliseconds are 0.\<close>

definition Date_UTC :: "number \<Rightarrow> number \<Rightarrow> number \<Rightarrow> number" where
  "Date_UTC year month date = TimeClip (MakeDate (MakeDay (MakeFullYear year) month date) 0)"

text \<open>
  A Date object is its time value: NaN for an invalid Date, otherwise a number of
  milliseconds since 1970-01-01T00:00Z of magnitude at most \<open>8.64 * 10^15\<close>. The UTC
  getters return NaN on an invalid Date.
\<close>

definition validTime :: "int \<Rightarrow> bool" where
  "validTime t \<longleftrightarrow> \<bar>t\<bar> \<le> 8640000000000000"

text \<open>
  \<^verbatim>\<open>new Date()\<close> reads the clock of the host: the time value of the present moment,
  which the host counts in milliseconds from the epoch 1970-01-01T00:00Z. This is the only
  date that the script handles: \<^verbatim>\<open>getUTCOrdinalDay\<close> is called in one place, without an
  argument, and \<^verbatim>\<open>displayDailyProverb\<close> takes none.
\<close>

definition clockReading :: "int \<Rightarrow> bool" where
  "clockReading t \<longleftrightarrow> 0 \<le> t \<and> t \<le> 8640000000000000"

definition getUTCFullYear :: "number \<Rightarrow> number" where
  "getUTCFullYear date = map_option YearFromTime date"

definition getUTCMonth :: "number \<Rightarrow> number" where
  "getUTCMonth date = map_option MonthFromTime date"

definition getUTCDate :: "number \<Rightarrow> number" where
  "getUTCDate date = map_option DateFromTime date"

section \<open>The day-of-year computation\<close>

text \<open>
  \<^verbatim>\<open>getUTCOrdinalDay(date = new Date())\<close>, with the date passed explicitly:
  \<^verbatim>\<open>
  const start = Date.UTC(date.getUTCFullYear(), 0, 1);
  const today = Date.UTC(date.getUTCFullYear(), date.getUTCMonth(), date.getUTCDate());
  const diff = today - start;
  return Math.floor(diff / (24 * 60 * 60 * 1000));
  \<close>
\<close>

definition getUTCOrdinalDay :: "number \<Rightarrow> number" where
  "getUTCOrdinalDay date =
     (let start = Date_UTC (getUTCFullYear date) (Some 0) (Some 1);
          today = Date_UTC (getUTCFullYear date) (getUTCMonth date) (getUTCDate date);
          diff = num_sub today start
      in floor_div diff (24 * 60 * 60 * 1000))"


text \<open>
  What the specification calls the ordinal day of a date: the time from the UTC midnight
  of 1 January of the date's UTC year to the UTC midnight of the date, in whole days.
  This definition follows the specification's words and the Gregorian calendar; it is
  what \<open>getUTCOrdinalDay\<close> is compared with.
\<close>

definition utcMidnight :: "int \<Rightarrow> int" where
  "utcMidnight t = msPerDay * Day t"

definition ordinalDay :: "int \<Rightarrow> int" where
  "ordinalDay t = (utcMidnight t - TimeFromYear (YearFromTime t)) div msPerDay"

section \<open>The page: data, state and operations\<close>

text \<open>
  A string is a sequence of UTF-16 code units; \<open>ascii\<close> embeds the ASCII literals of
  the script, and the two Pashto literals are written out by code unit.
\<close>

type_synonym jsstring = "16 word list"

definition ascii :: "string \<Rightarrow> jsstring" where
  "ascii s = map of_char s"

record ProverbRecord =
  proverb :: jsstring
  translation :: jsstring
  meaning :: jsstring

text \<open>
  The value of \<^verbatim>\<open>currentProverb\<close>: \<^verbatim>\<open>null\<close> initially, an element of the array
  after a selection, \<^verbatim>\<open>undefined\<close> when the array is read at something that is not one
  of its indices. The first and the last are falsy.
\<close>

datatype reference = Null | Undefined | Ref ProverbRecord


datatype js_error = TypeError | HostError jsstring

text \<open>How a promise of the host settles.\<close>

datatype settlement = Fulfilled | Rejected js_error

text \<open>
  The state of the page: the two variables of the script, the contents of the elements it
  writes, and what it has handed to the host (clipboard, share sheet, alert box, console,
  timers). \<open>unhandled\<close> collects the errors that no handler of the script received:
  exceptions that leave an event listener and rejections of promises without a rejection
  handler.
\<close>

record page =
  proverbs :: "ProverbRecord list"
  currentProverb :: reference
  proverbTextEl :: jsstring
  translationEl :: jsstring
  meaningEl :: jsstring
  copyBtn :: jsstring
  fetchPending :: bool
  pendingWrites :: "jsstring list"
  clipboard :: "jsstring option"
  pendingShares :: "(jsstring \<times> jsstring) list"
  shared :: "(jsstring \<times> jsstring) list"
  alerts :: "jsstring list"
  console :: "(jsstring option \<times> js_error) list"
  timers :: "jsstring list"
  unhandled :: "js_error list"

text \<open>
  The page when the script starts (\<^verbatim>\<open>let proverbs = []; let currentProverb = null;\<close>
  and the fetch just issued); the contents of the four elements come from the markup.
\<close>

definition initial :: "jsstring \<Rightarrow> jsstring \<Rightarrow> jsstring \<Rightarrow> jsstring \<Rightarrow> page" where
  "initial pt tr me cb =
     \<lparr> proverbs = [], currentProverb = Null,
       proverbTextEl = pt, translationEl = tr, meaningEl = me, copyBtn = cb,
       fetchPending = True, pendingWrites = [], clipboard = None,
       pendingShares = [], shared = [], alerts = [], console = [],
       timers = [], unhandled = [] \<rparr>"

text \<open>A call either returns or throws; the state it leaves is kept in both cases.\<close>

datatype completion = Returns page | Throws js_error page

text \<open>
  \<^verbatim>\<open>proverbs[i]\<close>: the element when \<open>i\<close> is an index of the array, \<^verbatim>\<open>undefined\<close> for
  any other Number (NaN included).
\<close>

definition element :: "ProverbRecord list \<Rightarrow> number \<Rightarrow> reference" where
  "element ps i =
     (case i of None \<Rightarrow> Undefined
      | Some n \<Rightarrow> if 0 \<le> n \<and> n < int (length ps) then Ref (ps ! nat n) else Undefined)"

text \<open>
  The three assignments that end both display functions:
  \<^verbatim>\<open>
  proverbTextEl.textContent = currentProverb.proverb;
  translationEl.textContent = `"${currentProverb.translation}"`;
  meaningEl.textContent = currentProverb.meaning;
  \<close>
  Reading a property of \<^verbatim>\<open>null\<close> or \<^verbatim>\<open>undefined\<close> throws a TypeError.
\<close>

definition showCurrent :: "page \<Rightarrow> completion" where
  "showCurrent st =
     (case currentProverb st of
        Ref r \<Rightarrow> Returns (st\<lparr> proverbTextEl := proverb r,
                              translationEl := ascii ''\"'' @ translation r @ ascii ''\"'',
                              meaningEl := meaning r \<rparr>)
      | _ \<Rightarrow> Throws TypeError st)"

text \<open>
  \<^verbatim>\<open>const idx = getUTCOrdinalDay() % proverbs.length;\<close> where the clock reads \<open>now\<close>.
\<close>

definition idx :: "int \<Rightarrow> ProverbRecord list \<Rightarrow> number" where
  "idx now ps = js_rem (getUTCOrdinalDay (Some now)) (Some (int (length ps)))"

definition displayDailyProverb :: "int \<Rightarrow> page \<Rightarrow> completion" where
  "displayDailyProverb now st =
     (if length (proverbs st) = 0 then Returns st
      else showCurrent (st\<lparr> currentProverb := element (proverbs st) (idx now (proverbs st)) \<rparr>))"

text \<open>
  \<^verbatim>\<open>proverbs[Math.floor(Math.random() * proverbs.length)]\<close>, where \<open>k\<close> is the numerator
  of the double that \<^verbatim>\<open>Math.random()\<close> returns.
\<close>

definition displayRandomProverb :: "int \<Rightarrow> page \<Rightarrow> completion" where
  "displayRandomProverb k st =
     (if length (proverbs st) = 0 then Returns st
      else showCurrent
             (st\<lparr> currentProverb :=
                    element (proverbs st)
                      (Math_floor (double_times k (int (length (proverbs st))))) \<rparr>))"

subsection \<open>Copy and share\<close>

definition textToCopy :: "ProverbRecord \<Rightarrow> jsstring" where
  "textToCopy r =
     proverb r @ ascii [CHR 0x0A, CHR 0x0A] @ ascii ''Translation: '' @ translation r
       @ ascii [CHR 0x0A] @ ascii ''Meaning: '' @ meaning r"

definition textToShare :: "ProverbRecord \<Rightarrow> jsstring" where
  "textToShare r =
     ascii ''Pashto Proverb:'' @ ascii [CHR 0x0A] @ proverb r @ ascii [CHR 0x0A, CHR 0x0A]
       @ ascii ''Translation: '' @ translation r"

text \<open>
  \<^verbatim>\<open>copyProverb\<close> up to the call of \<^verbatim>\<open>navigator.clipboard.writeText\<close>, which starts
  a write and returns a promise. \<open>hasClipboard\<close> tells whether the host provides
  \<^verbatim>\<open>navigator.clipboard\<close>; without it the property read throws.
\<close>

definition copyProverb :: "bool \<Rightarrow> page \<Rightarrow> completion" where
  "copyProverb hasClipboard st =
     (case currentProverb st of
        Ref r \<Rightarrow>
          if hasClipboard then Returns (st\<lparr> pendingWrites := pendingWrites st @ [textToCopy r] \<rparr>)
          else Throws TypeError st
      | _ \<Rightarrow> Returns st)"

definition copiedLabel :: jsstring where
  "copiedLabel = ascii ''<i class=\"fas fa-check\"></i>''
     @ [0x0020, 0x06A9, 0x0627, 0x067E, 0x064A, 0x0020, 0x0634, 0x0648, 0x0021]"

text \<open>
  The oldest pending write settles. Fulfilled: the clipboard holds the text and the
  \<^verbatim>\<open>then\<close> callback runs (it saves the label of the button, shows the confirmation
  and starts the timer that restores the label). Rejected: \<^verbatim>\<open>then\<close> was given no
  rejection handler and no \<^verbatim>\<open>catch\<close> follows, so the rejection is unhandled.
\<close>

definition writeTextSettled :: "settlement \<Rightarrow> page \<Rightarrow> page" where
  "writeTextSettled s st =
     (case pendingWrites st of
        [] \<Rightarrow> st
      | text # rest \<Rightarrow>
          (case s of
             Fulfilled \<Rightarrow>
               st\<lparr> pendingWrites := rest, clipboard := Some text,
                   timers := timers st @ [copyBtn st], copyBtn := copiedLabel \<rparr>
           | Rejected e \<Rightarrow>
               st\<lparr> pendingWrites := rest, unhandled := unhandled st @ [e] \<rparr>))"


text \<open>
  \<^verbatim>\<open>shareProverb\<close> up to the call of \<^verbatim>\<open>navigator.share\<close>; \<open>hasShare\<close> is the test
  \<^verbatim>\<open>if (navigator.share)\<close>.
\<close>

definition shareProverb :: "bool \<Rightarrow> page \<Rightarrow> completion" where
  "shareProverb hasShare st =
     (case currentProverb st of
        Ref r \<Rightarrow>
          if hasShare
          then Returns (st\<lparr> pendingShares := pendingShares st
                                 @ [(ascii ''Pashto Proverb of the Day'', textToShare r)] \<rparr>)
          else Returns (st\<lparr> alerts := alerts st
                                 @ [ascii ''Use the copy button to share this proverb.''] \<rparr>)
      | _ \<Rightarrow> Returns st)"

text \<open>
  The oldest pending share settles; a rejection goes to \<^verbatim>\<open>.catch(console.error)\<close>.
\<close>

definition shareSettled :: "settlement \<Rightarrow> page \<Rightarrow> page" where
  "shareSettled s st =
     (case pendingShares st of
        [] \<Rightarrow> st
      | data # rest \<Rightarrow>
          (case s of
             Fulfilled \<Rightarrow> st\<lparr> pendingShares := rest, shared := shared st @ [data] \<rparr>
           | Rejected e \<Rightarrow> st\<lparr> pendingShares := rest, console := console st @ [(None, e)] \<rparr>))"

subsection \<open>Loading and the event loop\<close>





text \<open>
  An event listener that throws ends there; the exception reaches no handler of the
  script.
\<close>

fun listener :: "completion \<Rightarrow> page" where
  "listener (Returns st) = st"
| "listener (Throws e st) = st\<lparr> unhandled := unhandled st @ [e] \<rparr>"




subsection \<open>Example data\<close>

text \<open>
  The examples of the specification: a collection of three records, and the record
  of the copy example, whose proverb is the three letters alef, lam, fa (U+0627, U+0644,
  U+0641), whose translation is "A" and whose meaning is "M".
  \<open>loaded ps\<close> is a page that holds the collection \<open>ps\<close> and has made no selection yet.
\<close>

definition record0 :: ProverbRecord where
  "record0 = \<lparr> proverb = ascii ''p0'', translation = ascii ''t0'', meaning = ascii ''m0'' \<rparr>"

definition record1 :: ProverbRecord where
  "record1 = \<lparr> proverb = ascii ''p1'', translation = ascii ''t1'', meaning = ascii ''m1'' \<rparr>"

definition record2 :: ProverbRecord where
  "record2 = \<lparr> proverb = ascii ''p2'', translation = ascii ''t2'', meaning = ascii ''m2'' \<rparr>"

definition alef :: ProverbRecord where
  "alef = \<lparr> proverb = [0x0627, 0x0644, 0x0641], translation = ascii ''A'', meaning = ascii ''M'' \<rparr>"

definition loaded :: "ProverbRecord list \<Rightarrow> page" where
  "loaded ps = (initial [] [] [] []) \<lparr> proverbs := ps, fetchPending := False \<rparr>"


section \<open>Calendar arithmetic\<close>

subsection \<open>Division by a positive constant\<close>

lemma div_bounds:
  fixes x k :: int
  assumes "0 < k"
  shows "k * (x div k) \<le> x" and "x < k * (x div k) + k"
proof -
  have e: "k * (x div k) + x mod k = x" by simp
  have "0 \<le> x mod k" "x mod k < k" using assms by simp_all
  with e show "k * (x div k) \<le> x" and "x < k * (x div k) + k" by linarith+
qed

lemma div_succ:
  fixes x k :: int
  assumes "0 < k"
  shows "(x + 1) div k = x div k + (if x mod k = k - 1 then 1 else 0)"
proof (cases "x mod k = k - 1")
  case True
  have e: "k * (x div k) + x mod k = x" by simp
  have d: "k * (x div k + 1) = k * (x div k) + k" by (simp add: algebra_simps)
  have "x + 1 = k * (x div k + 1) + 0"
    using True e d by linarith
  then have "(x + 1) div k = x div k + 1"
    by (rule int_div_pos_eq) (use assms in simp_all)
  with True show ?thesis by simp
next
  case False
  have b: "0 \<le> x mod k" "x mod k < k" using assms by simp_all
  have e: "x + 1 = k * (x div k) + (x mod k + 1)" by simp
  have "(x + 1) div k = x div k"
    using e by (rule int_div_pos_eq) (use b False in linarith)+
  with False show ?thesis by simp
qed

lemma mod_pred_iff:
  fixes x k :: int
  assumes "0 < k"
  shows "x mod k = k - 1 \<longleftrightarrow> k dvd (x + 1)"
proof
  assume h: "x mod k = k - 1"
  have e: "k * (x div k) + x mod k = x" by simp
  have d: "k * (x div k + 1) = k * (x div k) + k" by (simp add: algebra_simps)
  have "x + 1 = k * (x div k + 1)"
    using h e d by linarith
  then show "k dvd (x + 1)" by (rule dvdI)
next
  assume "k dvd (x + 1)"
  then obtain q where q: "x + 1 = k * q" by (rule dvdE)
  have "x = k * (q - 1) + (k - 1)" using q by (simp add: algebra_simps)
  then show "x mod k = k - 1"
    by (rule int_mod_pos_eq) (use assms in simp_all)
qed

lemma leap_shift:
  fixes y c k :: int
  assumes "0 < k" and "k dvd (c - 1)"
  shows "(y - c) mod k = k - 1 \<longleftrightarrow> y mod k = 0"
proof -
  have "(y - c) mod k = k - 1 \<longleftrightarrow> k dvd (y - (c - 1))"
    using mod_pred_iff[OF assms(1), of "y - c"] by (simp add: algebra_simps)
  also have "\<dots> \<longleftrightarrow> k dvd y"
    using assms(2) by (simp add: dvd_diff_left_iff)
  finally show ?thesis by (simp add: dvd_eq_mod_eq_0)
qed


lemma mod_0_trans:
  fixes y m n :: int
  shows "m dvd n \<Longrightarrow> y mod n = 0 \<Longrightarrow> y mod m = 0"
  by (metis dvd_eq_mod_eq_0 dvd_trans)

lemma DayFromYear_Suc: "DayFromYear (y + 1) = DayFromYear y + DaysInYear y"
proof -
  have a: "(y + 1 - 1969) div 4 = (y - 1969) div 4 + (if y mod 4 = 0 then 1 else 0)"
    using div_succ[of 4 "y - 1969"] leap_shift[of 4 1969 y] by (simp add: algebra_simps)
  have b: "(y + 1 - 1901) div 100 = (y - 1901) div 100 + (if y mod 100 = 0 then 1 else 0)"
    using div_succ[of 100 "y - 1901"] leap_shift[of 100 1901 y] by (simp add: algebra_simps)
  have c: "(y + 1 - 1601) div 400 = (y - 1601) div 400 + (if y mod 400 = 0 then 1 else 0)"
    using div_succ[of 400 "y - 1601"] leap_shift[of 400 1601 y] by (simp add: algebra_simps)
  have m1: "y mod 100 = 0" if "y mod 400 = 0"
    using that mod_0_trans[of 100 400 y] by simp
  have m2: "y mod 4 = 0" if "y mod 100 = 0"
    using that mod_0_trans[of 4 100 y] by simp
  show ?thesis
    unfolding DayFromYear_def DaysInYear_def a b c
    using m1 m2 by auto
qed


lemma DaysInYear_ge: "365 \<le> DaysInYear y" and DaysInYear_le: "DaysInYear y \<le> 366"
  by (simp_all add: DaysInYear_def)

lemma DayFromYear_mono: "y \<le> y' \<Longrightarrow> DayFromYear y \<le> DayFromYear y'"
proof (induction y' rule: int_ge_induct)
  case base
  show ?case by simp
next
  case (step i)
  have "DayFromYear i \<le> DayFromYear (i + 1)"
    using DaysInYear_ge[of i] by (simp add: DayFromYear_Suc)
  with step.IH show ?case by linarith
qed

lemma DayFromYear_linear:
  "146097 * (y - 1970) - 607 < 400 * DayFromYear y"
  "400 * DayFromYear y < 146097 * (y - 1970) + 593"
proof -
  define a b c where "a = (y - 1969) div 4" and "b = (y - 1901) div 100"
    and "c = (y - 1601) div 400"
  have a: "4 * a \<le> y - 1969" "y - 1969 < 4 * a + 4"
    unfolding a_def by (rule div_bounds, simp)+
  have b: "100 * b \<le> y - 1901" "y - 1901 < 100 * b + 100"
    unfolding b_def by (rule div_bounds, simp)+
  have c: "400 * c \<le> y - 1601" "y - 1601 < 400 * c + 400"
    unfolding c_def by (rule div_bounds, simp)+
  have d: "DayFromYear y = 365 * (y - 1970) + a - b + c"
    by (simp add: DayFromYear_def a_def b_def c_def)
  show "146097 * (y - 1970) - 607 < 400 * DayFromYear y"
    unfolding d using a b c by (simp add: algebra_simps)
  show "400 * DayFromYear y < 146097 * (y - 1970) + 593"
    unfolding d using a b c by (simp add: algebra_simps)
qed

lemma TimeFromYear_le_iff: "TimeFromYear y \<le> t \<longleftrightarrow> DayFromYear y \<le> Day t"
proof -
  have p: "(0::int) < msPerDay" by (simp add: msPerDay_def)
  note b = div_bounds[OF p, of t]
  show ?thesis
  proof
    assume "TimeFromYear y \<le> t"
    then have "msPerDay * DayFromYear y < msPerDay * (t div msPerDay + 1)"
      using b(2) by (simp add: TimeFromYear_def algebra_simps)
    then have "DayFromYear y < t div msPerDay + 1"
      using p by (simp add: mult_less_cancel_left_pos)
    then show "DayFromYear y \<le> Day t" by (simp add: Day_def)
  next
    assume "DayFromYear y \<le> Day t"
    then have "msPerDay * DayFromYear y \<le> msPerDay * (t div msPerDay)"
      using p by (simp add: Day_def mult_le_cancel_left_pos)
    with b(1) show "TimeFromYear y \<le> t" by (simp add: TimeFromYear_def)
  qed
qed

text \<open>The year as a function of the day number.\<close>

lemma YearFromTime_days:
  "YearFromTime t =
     (let y = 1970 + (400 * Day t) div 146097
      in if DayFromYear (y + 1) \<le> Day t then y + 1
         else if DayFromYear y \<le> Day t then y
         else y - 1)"
  unfolding YearFromTime_def TimeFromYear_le_iff ..

lemma YearFromTime_bounds:
  "DayFromYear (YearFromTime t) \<le> Day t"
  "Day t < DayFromYear (YearFromTime t + 1)"
proof -
  define y where "y = 1970 + (400 * Day t) div 146097"
  have e: "146097 * ((400 * Day t) div 146097) \<le> 400 * Day t"
    "400 * Day t < 146097 * ((400 * Day t) div 146097) + 146097"
    by (rule div_bounds, simp)+
  have lo: "DayFromYear (y - 1) \<le> Day t"
    using DayFromYear_linear(2)[of "y - 1"] e(1) by (simp add: y_def)
  have hi: "Day t < DayFromYear (y + 2)"
    using DayFromYear_linear(1)[of "y + 2"] e(2) by (simp add: y_def)
  have Y: "YearFromTime t =
     (if DayFromYear (y + 1) \<le> Day t then y + 1
      else if DayFromYear y \<le> Day t then y else y - 1)"
    by (simp add: YearFromTime_days y_def Let_def)
  show "DayFromYear (YearFromTime t) \<le> Day t"
    using lo by (simp add: Y)
  show "Day t < DayFromYear (YearFromTime t + 1)"
    using hi by (simp add: Y add.commute)
qed

lemma YearFromTime_unique:
  assumes "DayFromYear y \<le> Day t" and "Day t < DayFromYear (y + 1)"
  shows "YearFromTime t = y"
proof (rule ccontr)
  assume ne: "YearFromTime t \<noteq> y"
  note b = YearFromTime_bounds[of t]
  show False
  proof (cases "YearFromTime t < y")
    case True
    then have "DayFromYear (YearFromTime t + 1) \<le> DayFromYear y"
      by (intro DayFromYear_mono) simp
    with b(2) assms(1) show False by linarith
  next
    case False
    with ne have "y + 1 \<le> YearFromTime t" by simp
    then have "DayFromYear (y + 1) \<le> DayFromYear (YearFromTime t)"
      by (rule DayFromYear_mono)
    with b(1) assms(2) show False by linarith
  qed
qed

lemma YearFromTime_same_day: "Day t = Day t' \<Longrightarrow> YearFromTime t = YearFromTime t'"
  by (simp only: YearFromTime_days)

lemma DayWithinYear_range:
  "0 \<le> DayWithinYear t" "DayWithinYear t < DaysInYear (YearFromTime t)"
  using YearFromTime_bounds[of t] DayFromYear_Suc[of "YearFromTime t"]
  by (simp_all add: DayWithinYear_def)

lemma MonthFromTime_range: "0 \<le> MonthFromTime t" "MonthFromTime t \<le> 11"
  by (simp_all add: MonthFromTime_def Let_def)

lemma DateFromTime_roundtrip:
  "monthStart (MonthFromTime t) (InLeapYear t) + DateFromTime t - 1 = DayWithinYear t"
  using DayWithinYear_range[of t]
  by (simp add: DateFromTime_def MonthFromTime_def monthStart_def Let_def)

lemma DateFromTime_pos: "1 \<le> DateFromTime t"
  using DayWithinYear_range[of t]
  by (simp add: DateFromTime_def MonthFromTime_def Let_def)

subsection \<open>Time values in the range of Date\<close>

text \<open>
  \<open>MakeDay\<close> is to find the day of a time value whose year is \<open>ym\<close>, whose month is \<open>mn\<close>
  and whose date is 1. The day that the model takes is such a day.
\<close>

lemma MakeDay_first_of_month:
  assumes "0 \<le> mn" and "mn \<le> 11"
    and "t = (DayFromYear ym + monthStart mn (if DaysInYear ym = 366 then 1 else 0)) * msPerDay"
  shows "YearFromTime t = ym" and "MonthFromTime t = mn" and "DateFromTime t = 1"
proof -
  define l :: int where "l = (if DaysInYear ym = 366 then 1 else 0)"
  have len: "DaysInYear ym = 365 + l"
    by (simp add: l_def DaysInYear_def)
  have day: "Day t = DayFromYear ym + monthStart mn l"
    by (simp add: assms(3) Day_def msPerDay_def l_def)
  have m: "0 \<le> monthStart mn l" "monthStart mn l < 365 + l"
    by (simp_all add: monthStart_def l_def)
  show y: "YearFromTime t = ym"
    by (rule YearFromTime_unique) (use m len in \<open>simp_all add: day DayFromYear_Suc\<close>)
  have d: "DayWithinYear t = monthStart mn l" "InLeapYear t = l"
    by (simp_all add: DayWithinYear_def InLeapYear_def y day l_def)
  from assms(1,2) consider "mn = 0" | "mn = 1" | "mn = 2" | "mn = 3" | "mn = 4" | "mn = 5"
    | "mn = 6" | "mn = 7" | "mn = 8" | "mn = 9" | "mn = 10" | "mn = 11"
    by atomize_elim arith
  then show mo: "MonthFromTime t = mn"
    by cases (simp_all add: MonthFromTime_def d monthStart_def l_def)
  show "DateFromTime t = 1"
    using assms(1,2) by (simp add: DateFromTime_def d mo monthStart_def)
qed

lemma Day_valid:
  assumes "validTime t"
  shows "- 100000000 \<le> Day t" and "Day t \<le> 100000000"
proof -
  have p: "(0::int) < msPerDay" by (simp add: msPerDay_def)
  note b = div_bounds[OF p, of t]
  have t: "- 8640000000000000 \<le> t" "t \<le> 8640000000000000"
    using assms by (simp_all add: validTime_def abs_le_iff)
  show "- 100000000 \<le> Day t"
    using b(2) t(1) by (simp add: Day_def msPerDay_def)
  show "Day t \<le> 100000000"
    using b(1) t(2) by (simp add: Day_def msPerDay_def)
qed

lemma YearFromTime_valid_lower:
  assumes "validTime t"
  shows "- 271821 \<le> YearFromTime t"
proof (rule ccontr)
  assume "\<not> - 271821 \<le> YearFromTime t"
  then have "YearFromTime t + 1 \<le> - 271821" by simp
  then have "DayFromYear (YearFromTime t + 1) \<le> DayFromYear (- 271821)"
    by (rule DayFromYear_mono)
  moreover have "DayFromYear (- 271821) = - 100000109"
    by (simp add: DayFromYear_def)
  ultimately show False
    using YearFromTime_bounds(2)[of t] Day_valid(1)[OF assms] by linarith
qed

lemma TimeClip_day:
  "TimeClip (Some (d * msPerDay)) = (if \<bar>d\<bar> \<le> 100000000 then Some (d * msPerDay) else NaN)"
proof (cases "\<bar>d\<bar> \<le> 100000000")
  case True
  then have "\<bar>d\<bar> * 86400000 \<le> 100000000 * 86400000"
    by (rule mult_right_mono) simp
  then have "\<not> 8640000000000000 < \<bar>d * 86400000\<bar>"
    by (simp add: abs_mult)
  with True show ?thesis
    by (simp add: TimeClip_def msPerDay_def)
next
  case False
  then have "100000001 \<le> \<bar>d\<bar>"
    by linarith
  then have "100000001 * 86400000 \<le> \<bar>d\<bar> * 86400000"
    by (rule mult_right_mono) simp
  then have "8640000000000000 < \<bar>d * 86400000\<bar>"
    by (simp add: abs_mult)
  with False show ?thesis
    by (simp add: TimeClip_def msPerDay_def)
qed

lemma MakeDay_fields:
  assumes "0 \<le> m" "m \<le> 11"
  shows "MakeDay (Some y) (Some m) (Some dt) =
           Some (DayFromYear y + monthStart m (if DaysInYear y = 366 then 1 else 0) + dt - 1)"
proof -
  have "m div 12 = 0" "m mod 12 = m" using assms by simp_all
  then show ?thesis by (simp add: MakeDay_def)
qed

lemma Date_UTC_fields:
  assumes "0 \<le> m" "m \<le> 11"
  shows "Date_UTC (Some y) (Some m) (Some dt) =
           TimeClip (Some ((DayFromYear (fullYear y)
              + monthStart m (if DaysInYear (fullYear y) = 366 then 1 else 0) + dt - 1) * msPerDay))"
proof -
  have "MakeFullYear (Some y) = Some (fullYear y)"
    by (simp add: MakeFullYear_def)
  then show ?thesis
    using MakeDay_fields[OF assms, of "fullYear y" dt] by (simp add: Date_UTC_def MakeDate_def)
qed

lemma monthStart_nonneg: "0 \<le> monthStart m (if b then 1 else 0)"
  by (simp add: monthStart_def)

text \<open>
  The two calls of \<^verbatim>\<open>Date.UTC\<close> in \<open>getUTCOrdinalDay\<close>, in day numbers: \<open>yr\<close> is
  the year as \<^verbatim>\<open>Date.UTC\<close> reads it and \<open>k\<close> the days it counts from the first of
  that year to the date.
\<close>

lemma getUTCOrdinalDay_unfold:
  assumes "yr = fullYear (YearFromTime t)"
    and "k = monthStart (MonthFromTime t) (if DaysInYear yr = 366 then 1 else 0) + DateFromTime t - 1"
  shows "getUTCOrdinalDay (Some t) =
           floor_div (num_sub (TimeClip (Some ((DayFromYear yr + k) * msPerDay)))
                              (TimeClip (Some (DayFromYear yr * msPerDay)))) 86400000"
proof -
  have start: "Date_UTC (Some (YearFromTime t)) (Some 0) (Some 1)
                 = TimeClip (Some (DayFromYear yr * msPerDay))"
    using Date_UTC_fields[of 0 "YearFromTime t" 1] assms(1) by (simp add: monthStart_def)
  have e: "DayFromYear yr + monthStart (MonthFromTime t) (if DaysInYear yr = 366 then 1 else 0)
             + DateFromTime t - 1 = DayFromYear yr + k"
    using assms(2) by simp
  have today: "Date_UTC (Some (YearFromTime t)) (Some (MonthFromTime t)) (Some (DateFromTime t))
                 = TimeClip (Some ((DayFromYear yr + k) * msPerDay))"
    unfolding Date_UTC_fields[OF MonthFromTime_range[of t]] assms(1)[symmetric] e ..
  show ?thesis
    by (simp add: getUTCOrdinalDay_def getUTCFullYear_def getUTCMonth_def getUTCDate_def
        start today)
qed

lemma days_apart: "((a + k) * msPerDay - a * msPerDay) div 86400000 = k"
  by (simp add: msPerDay_def algebra_simps)

lemma getUTCOrdinalDay_formula:
  assumes "yr = fullYear (YearFromTime t)"
    and "k = monthStart (MonthFromTime t) (if DaysInYear yr = 366 then 1 else 0) + DateFromTime t - 1"
    and "- 100000000 \<le> DayFromYear yr" and "DayFromYear yr + k \<le> 100000000"
  shows "getUTCOrdinalDay (Some t) = Some k"
proof -
  have k0: "0 \<le> k"
    using monthStart_nonneg[of "MonthFromTime t" "DaysInYear yr = 366"]
      DateFromTime_pos[of t] assms(2) by linarith
  have "\<bar>DayFromYear yr\<bar> \<le> 100000000" "\<bar>DayFromYear yr + k\<bar> \<le> 100000000"
    using assms(3,4) k0 by linarith+
  then show ?thesis
    unfolding getUTCOrdinalDay_unfold[OF assms(1,2)] TimeClip_day
    by (simp add: num_sub_def floor_div_def days_apart)
qed

lemma getUTCOrdinalDay_nonneg:
  assumes "getUTCOrdinalDay (Some t) = Some k"
  shows "0 \<le> k"
proof -
  define yr where "yr = fullYear (YearFromTime t)"
  define k' where "k' =
    monthStart (MonthFromTime t) (if DaysInYear yr = 366 then 1 else 0) + DateFromTime t - 1"
  have k0: "0 \<le> k'"
    using monthStart_nonneg[of "MonthFromTime t" "DaysInYear yr = 366"]
      DateFromTime_pos[of t] unfolding k'_def by linarith
  have "k = k'"
    using assms unfolding getUTCOrdinalDay_unfold[OF yr_def k'_def] TimeClip_day
    by (simp add: num_sub_def floor_div_def days_apart split: if_splits)
  with k0 show ?thesis by simp
qed

lemma ordinalDay_DayWithinYear: "ordinalDay t = DayWithinYear t"
proof -
  have nz: "msPerDay \<noteq> 0"
    by (simp add: msPerDay_def)
  have "msPerDay * Day t - msPerDay * DayFromYear (YearFromTime t)
          = msPerDay * (Day t - DayFromYear (YearFromTime t))"
    by (rule right_diff_distrib[symmetric])
  then have "(msPerDay * Day t - msPerDay * DayFromYear (YearFromTime t)) div msPerDay
          = Day t - DayFromYear (YearFromTime t)"
    using nz by (metis nonzero_mult_div_cancel_left)
  then show ?thesis
    by (simp add: ordinalDay_def utcMidnight_def TimeFromYear_def DayWithinYear_def)
qed

lemma DaysInYear_1900:
  assumes "1 \<le> y" "y \<le> 99"
  shows "DaysInYear (1900 + y) = DaysInYear y"
proof -
  have "(y + 4 * 475) mod 4 = y mod 4"
    by (rule mod_mult_self2)
  then have a: "(1900 + y) mod 4 = y mod 4"
    by (simp add: add.commute)
  have b: "y mod 100 = y" using assms by simp
  have "(y + 100 * 19) mod 100 = y mod 100"
    by (rule mod_mult_self2)
  then have c: "(1900 + y) mod 100 = y"
    using b by (simp add: add.commute)
  show ?thesis
    using assms by (simp add: DaysInYear_def a b c)
qed

subsection \<open>The ordinal day of a valid date\<close>

lemma monthStart_leap:
  "0 \<le> m \<Longrightarrow> monthStart m 0 = monthStart m 1 - (if 2 \<le> m then 1 else 0)"
  by (simp add: monthStart_def)

text \<open>
  The result on every valid date outside the year -271821: the day within the year, less
  one from March of the year 0, which \<^verbatim>\<open>Date.UTC\<close> takes for the common year 1900.
\<close>

lemma getUTCOrdinalDay_valid:
  assumes v: "validTime t" and first: "YearFromTime t \<noteq> - 271821"
  shows "getUTCOrdinalDay (Some t) =
           Some (DayWithinYear t - (if YearFromTime t = 0 \<and> 2 \<le> MonthFromTime t then 1 else 0))"
proof -
  define y where "y = YearFromTime t"
  define yr where "yr = fullYear y"
  define e :: int where "e = (if y = 0 \<and> 2 \<le> MonthFromTime t then 1 else 0)"
  define k where
    "k = monthStart (MonthFromTime t) (if DaysInYear yr = 366 then 1 else 0) + DateFromTime t - 1"
  have leap: "monthStart (MonthFromTime t) (if DaysInYear yr = 366 then 1 else 0)
                = monthStart (MonthFromTime t) (InLeapYear t) - e"
  proof (cases "y = 0")
    case True
    then have "DaysInYear yr = 365" "InLeapYear t = 1"
      by (simp_all add: yr_def fullYear_def DaysInYear_def InLeapYear_def y_def[symmetric])
    then show ?thesis
      using monthStart_leap[OF MonthFromTime_range(1), of t] True by (simp add: e_def)
  next
    case False
    have "DaysInYear yr = DaysInYear y"
    proof (cases "1 \<le> y \<and> y \<le> 99")
      case True
      then show ?thesis using DaysInYear_1900[of y] by (simp add: yr_def fullYear_def)
    next
      case False
      with \<open>y \<noteq> 0\<close> have "\<not> (0 \<le> y \<and> y \<le> 99)" by linarith
      then show ?thesis by (auto simp: yr_def fullYear_def)
    qed
    then show ?thesis using False by (simp add: InLeapYear_def y_def e_def)
  qed
  have k: "k = DayWithinYear t - e"
    unfolding k_def leap using DateFromTime_roundtrip[of t] by simp
  have e01: "0 \<le> e" "e \<le> 1" by (simp_all add: e_def)
  have range: "k < 366"
    using DayWithinYear_range(2)[of t] DaysInYear_le[of "YearFromTime t"] e01 by (simp add: k)
  have bounds: "- 100000000 \<le> DayFromYear yr \<and> DayFromYear yr + k \<le> 100000000"
  proof (cases "0 \<le> y \<and> y \<le> 99")
    case True
    then have "DayFromYear 1900 \<le> DayFromYear yr" "DayFromYear yr \<le> DayFromYear 1999"
      by (auto simp: yr_def fullYear_def intro!: DayFromYear_mono)
    moreover have "DayFromYear 1900 = - 25567" "DayFromYear 1999 = 10592"
      by (simp_all add: DayFromYear_def)
    ultimately show ?thesis using range by simp
  next
    case False
    then have yr: "yr = y" by (auto simp: yr_def fullYear_def)
    from False have "e = 0" by (auto simp: e_def)
    have "- 271820 \<le> y"
      using YearFromTime_valid_lower[OF v] first by (simp add: y_def)
    then have "DayFromYear (- 271820) \<le> DayFromYear y"
      by (rule DayFromYear_mono)
    moreover have "DayFromYear (- 271820) = - 99999744"
      by (simp add: DayFromYear_def)
    moreover have "DayFromYear y + k = Day t"
      by (simp add: k \<open>e = 0\<close> DayWithinYear_def y_def)
    ultimately show ?thesis
      using Day_valid(2)[OF v] by (simp add: yr)
  qed
  have "getUTCOrdinalDay (Some t) = Some k"
    using bounds by (intro getUTCOrdinalDay_formula[where yr = yr]) (simp_all add: yr_def y_def k_def)
  then show ?thesis by (simp add: k e_def y_def)
qed

lemma getUTCOrdinalDay_DayWithinYear:
  assumes "validTime t" and "YearFromTime t \<noteq> - 271821"
    and "\<not> (YearFromTime t = 0 \<and> 2 \<le> MonthFromTime t)"
  shows "getUTCOrdinalDay (Some t) = Some (DayWithinYear t)"
proof -
  have "(if YearFromTime t = 0 \<and> 2 \<le> MonthFromTime t then 1 else 0) = (0::int)"
    using assms(3) by (rule if_not_P)
  then show ?thesis
    using getUTCOrdinalDay_valid[OF assms(1,2)] by simp
qed

text \<open>
  A reading of the clock lies in 1970 or later, where \<^verbatim>\<open>Date.UTC\<close> keeps the year and
  the first day of the year is a time value.
\<close>

lemma clockReading_valid: "clockReading t \<Longrightarrow> validTime t"
  by (simp add: clockReading_def validTime_def)

lemma clockReading_year:
  assumes "clockReading t"
  shows "1970 \<le> YearFromTime t"
proof (rule ccontr)
  assume "\<not> 1970 \<le> YearFromTime t"
  then have "YearFromTime t + 1 \<le> 1970" by simp
  then have "DayFromYear (YearFromTime t + 1) \<le> DayFromYear 1970"
    by (rule DayFromYear_mono)
  moreover have "DayFromYear 1970 = 0"
    by (simp add: DayFromYear_def)
  moreover have "0 \<le> Day t"
    using assms by (simp add: clockReading_def Day_def msPerDay_def pos_imp_zdiv_nonneg_iff)
  ultimately show False
    using YearFromTime_bounds(2)[of t] by linarith
qed

lemma getUTCOrdinalDay_clock:
  assumes "clockReading t"
  shows "getUTCOrdinalDay (Some t) = Some (ordinalDay t)"
proof -
  have y: "1970 \<le> YearFromTime t"
    using assms by (rule clockReading_year)
  have "getUTCOrdinalDay (Some t) = Some (DayWithinYear t)"
    by (rule getUTCOrdinalDay_DayWithinYear) (use y clockReading_valid[OF assms] in simp_all)
  then show ?thesis
    by (simp only: ordinalDay_DayWithinYear)
qed

lemma getUTCOrdinalDay_fields:
  assumes "getUTCFullYear d = getUTCFullYear d'" "getUTCMonth d = getUTCMonth d'"
    "getUTCDate d = getUTCDate d'"
  shows "getUTCOrdinalDay d = getUTCOrdinalDay d'"
  using assms by (simp add: getUTCOrdinalDay_def)

section \<open>Rounding of the random product\<close>

lemma round53_nonneg: "0 \<le> p \<Longrightarrow> 0 \<le> round53 p"
  by (auto simp: round53_def Let_def pos_imp_zdiv_nonneg_iff)

text \<open>Rounding to 53 significant digits adds at most the fraction \<open>2^-53\<close> of the number.\<close>

lemma round53_error:
  assumes "0 \<le> p"
  shows "2 ^ 53 * round53 p \<le> (2 ^ 53 + 1) * p"
proof (cases "bitlen p \<le> 53")
  case True
  then show ?thesis using assms by (simp add: round53_def algebra_simps)
next
  case False
  define s where "s = nat (bitlen p - 53)"
  define u :: int where "u = 2 ^ s"
  define q where "q = p div u"
  define rest where "rest = p mod u"
  have p0: "0 < p" using False assms by (cases "p = 0") auto
  have u0: "0 < u" by (simp add: u_def)
  have split: "p = q * u + rest" by (simp add: q_def rest_def)
  have rest: "0 \<le> rest" "rest < u" using u0 by (simp_all add: rest_def)
  have "nat (bitlen p - 1) = 52 + s" using False by (simp add: s_def)
  then have "(2::int) ^ (52 + s) \<le> p" using bitlen_bounds[OF p0] by simp
  then have big: "2 ^ 52 * u \<le> p" by (simp add: u_def power_add)
  have r: "round53 p = (if 2 * rest < u \<or> (2 * rest = u \<and> even q) then q * u else (q + 1) * u)"
    using False by (simp add: round53_def Let_def s_def u_def q_def rest_def)
  have "2 * round53 p \<le> 2 * p + u"
  proof (cases "2 * rest < u \<or> (2 * rest = u \<and> even q)")
    case True
    then have "round53 p = q * u" by (simp add: r)
    then show ?thesis using split rest u0 by linarith
  next
    case False
    then have up: "round53 p = (q + 1) * u" and "u \<le> 2 * rest" by (auto simp: r)
    have "(q + 1) * u = q * u + u" by (simp add: algebra_simps)
    then show ?thesis using up split \<open>u \<le> 2 * rest\<close> by linarith
  qed
  then have "2 ^ 52 * (2 * round53 p) \<le> 2 ^ 52 * (2 * p + u)"
    by (intro mult_left_mono) simp_all
  then have "2 ^ 53 * round53 p \<le> 2 ^ 53 * p + 2 ^ 52 * u"
    by (simp add: algebra_simps)
  with big show ?thesis by (simp add: algebra_simps)
qed

text \<open>
  The rounded product of a random value and a positive length stays below the length:
  \<open>(1 + 2^-53) * (1 - 2^-53) < 1\<close>.
\<close>

lemma double_times_below:
  assumes "randomValue k" and "0 < n"
  shows "0 \<le> double_times k n" and "double_times k n < 2 ^ 1074 * n"
proof -
  have k: "0 \<le> k" "k \<le> 2 ^ 1074 - 2 ^ 1021"
    using assms(1) by (simp_all add: randomValue_def)
  have p: "0 \<le> k * n" using k(1) assms(2) by simp
  show "0 \<le> double_times k n"
    unfolding double_times_def using p by (rule round53_nonneg)
  have "k * n \<le> (2 ^ 1074 - 2 ^ 1021) * n"
    using k(2) assms(2) by (intro mult_right_mono) simp_all
  then have "(2 ^ 53 + 1) * (k * n) \<le> (2 ^ 53 + 1) * ((2 ^ 1074 - 2 ^ 1021) * n)"
    by (intro mult_left_mono) simp_all
  moreover have "((2 ^ 53 + 1) * (2 ^ 1074 - 2 ^ 1021)) * n < (2 ^ 53 * 2 ^ 1074) * n"
    using assms(2) by (intro mult_strict_right_mono) simp_all
  ultimately have "(2 ^ 53 + 1) * (k * n) < 2 ^ 53 * (2 ^ 1074 * n)"
    by (simp only: mult.assoc)
  with round53_error[OF p] have "2 ^ 53 * round53 (k * n) < 2 ^ 53 * (2 ^ 1074 * n)"
    by (rule le_less_trans)
  then show "double_times k n < 2 ^ 1074 * n"
    unfolding double_times_def by (simp only: mult_less_cancel_left_pos zero_less_power zero_less_numeral)
qed

lemma random_index:
  assumes "randomValue k" and "0 < n"
  shows "\<exists>i. Math_floor (double_times k n) = Some i \<and> 0 \<le> i \<and> i < n"
proof -
  let ?p = "double_times k n"
  have pos: "(0::int) < 2 ^ 1074" by simp
  have "2 ^ 1074 * (?p div 2 ^ 1074) \<le> ?p"
    using pos by (rule div_bounds(1))
  also have "?p < 2 ^ 1074 * n"
    using assms by (rule double_times_below(2))
  finally have "?p div 2 ^ 1074 < n"
    by (simp only: mult_less_cancel_left_pos pos)
  moreover have "0 \<le> ?p div 2 ^ 1074"
    using double_times_below(1)[OF assms] by (simp add: pos_imp_zdiv_nonneg_iff)
  ultimately show ?thesis by (simp add: Math_floor_def)
qed

section \<open>Selection and state\<close>

lemma js_rem_nonneg:
  assumes "0 \<le> k" "0 < n"
  shows "js_rem (Some k) (Some n) = Some (k mod n)"
proof (cases "k = 0")
  case True
  then show ?thesis using assms by (simp add: js_rem_def)
next
  case False
  with assms have "0 < k" by simp
  then show ?thesis using assms by (simp add: js_rem_def)
qed

lemma idx_ordinal:
  assumes "getUTCOrdinalDay (Some now) = Some k" and "ps \<noteq> []"
  shows "idx now ps = Some (k mod int (length ps))"
  using assms getUTCOrdinalDay_nonneg[OF assms(1)]
  by (simp add: idx_def js_rem_nonneg)

lemma idx_step:
  assumes "getUTCOrdinalDay (Some t1) = Some k" and "getUTCOrdinalDay (Some t2) = Some (k + 1)"
    and "ps \<noteq> []"
  shows "\<exists>i. 0 \<le> i \<and> i < int (length ps) \<and> idx t1 ps = Some i
             \<and> idx t2 ps = Some ((i + 1) mod int (length ps))"
proof -
  let ?n = "int (length ps)"
  have n: "0 < ?n" using assms(3) by simp
  have "idx t2 ps = Some ((k mod ?n + 1) mod ?n)"
    by (simp add: idx_ordinal[OF assms(2,3)] mod_add_left_eq)
  moreover have "0 \<le> k mod ?n" "k mod ?n < ?n" using n by simp_all
  ultimately show ?thesis
    using idx_ordinal[OF assms(1,3)] by blast
qed

lemma element_index:
  assumes "0 \<le> i" "i < int (length ps)"
  shows "element ps (Some i) = Ref (ps ! nat i)"
  using assms by (simp add: element_def)

lemma showCurrent_selected:
  "currentProverb st = Ref r \<Longrightarrow>
   showCurrent st = Returns (st\<lparr> proverbTextEl := proverb r,
                              translationEl := ascii ''\"'' @ translation r @ ascii ''\"'',
                              meaningEl := meaning r \<rparr>)"
  by (simp add: showCurrent_def)

lemma daily_selection:
  assumes "getUTCOrdinalDay (Some now) = Some k" and "proverbs st \<noteq> []"
  shows "nat (k mod int (length (proverbs st))) < length (proverbs st)"
    and "displayDailyProverb now st =
      Returns (st\<lparr> currentProverb := Ref (proverbs st ! nat (k mod int (length (proverbs st)))),
                  proverbTextEl := proverb (proverbs st ! nat (k mod int (length (proverbs st)))),
                  translationEl := ascii ''\"''
                     @ translation (proverbs st ! nat (k mod int (length (proverbs st)))) @ ascii ''\"'',
                  meaningEl := meaning (proverbs st ! nat (k mod int (length (proverbs st)))) \<rparr>)"
proof -
  let ?n = "int (length (proverbs st))"
  have n: "0 < ?n" using assms(2) by simp
  have r: "0 \<le> k mod ?n" "k mod ?n < ?n" using n by simp_all
  show "nat (k mod ?n) < length (proverbs st)" using r by linarith
  have e: "element (proverbs st) (idx now (proverbs st)) = Ref (proverbs st ! nat (k mod ?n))"
    unfolding idx_ordinal[OF assms] by (rule element_index[OF r])
  show "displayDailyProverb now st =
      Returns (st\<lparr> currentProverb := Ref (proverbs st ! nat (k mod ?n)),
                  proverbTextEl := proverb (proverbs st ! nat (k mod ?n)),
                  translationEl := ascii ''\"'' @ translation (proverbs st ! nat (k mod ?n)) @ ascii ''\"'',
                  meaningEl := meaning (proverbs st ! nat (k mod ?n)) \<rparr>)"
    using assms(2) by (simp add: displayDailyProverb_def e showCurrent_selected)
qed








lemma random_selection:
  assumes "proverbs st \<noteq> []" and "randomValue k"
  shows "\<exists>i. Math_floor (double_times k (int (length (proverbs st)))) = Some (int i) \<and>
           i < length (proverbs st) \<and>
           displayRandomProverb k st =
             Returns (st\<lparr> currentProverb := Ref (proverbs st ! i),
                         proverbTextEl := proverb (proverbs st ! i),
                         translationEl := ascii ''\"'' @ translation (proverbs st ! i) @ ascii ''\"'',
                         meaningEl := meaning (proverbs st ! i) \<rparr>)"
proof -
  let ?n = "int (length (proverbs st))"
  have "0 < ?n" using assms(1) by simp
  from random_index[OF assms(2) this]
  obtain j where j: "Math_floor (double_times k ?n) = Some j" "0 \<le> j" "j < ?n"
    by blast
  have e: "element (proverbs st) (Some j) = Ref (proverbs st ! nat j)"
    using j(2,3) by (rule element_index)
  have "displayRandomProverb k st =
          Returns (st\<lparr> currentProverb := Ref (proverbs st ! nat j),
                      proverbTextEl := proverb (proverbs st ! nat j),
                      translationEl := ascii ''\"'' @ translation (proverbs st ! nat j) @ ascii ''\"'',
                      meaningEl := meaning (proverbs st ! nat j) \<rparr>)"
    using assms(1) by (simp add: displayRandomProverb_def j(1) e showCurrent_selected)
  moreover have "Math_floor (double_times k ?n) = Some (int (nat j))" "nat j < length (proverbs st)"
    using j by simp_all
  ultimately show ?thesis by blast
qed







section \<open>The claims of the specification\<close>

subsection \<open>Concrete dates used in the examples\<close>

text \<open>
  2024-01-04T00:00Z, 2024-01-05T00:00Z, the last millisecond of 2024-01-05, and noon of
  2024-03-01, as readings of the clock with their calendar data; and three values of
  \<^verbatim>\<open>Date.UTC\<close>: the epoch, the first day of 2024, and the first day of the year 0, which
  it takes for 1900.
\<close>

lemma jan5_2024_calendar:
  "clockReading 1704412800000 \<and> YearFromTime 1704412800000 = 2024
   \<and> MonthFromTime 1704412800000 = 0 \<and> DateFromTime 1704412800000 = 5
   \<and> ordinalDay 1704412800000 = 4"
  by code_simp

lemma jan5_2024_same_day: "Day 1704412800000 = Day 1704499199999"
  by code_simp

lemma mar1_2024_calendar:
  "clockReading 1709294400000 \<and> YearFromTime 1709294400000 = 2024
   \<and> MonthFromTime 1709294400000 = 2 \<and> DateFromTime 1709294400000 = 1
   \<and> ordinalDay 1709294400000 = 60"
  by code_simp

lemma Date_UTC_examples:
  "Date_UTC (Some 1970) (Some 0) (Some 1) = Some 0"
  "Date_UTC (Some 2024) (Some 0) (Some 1) = Some 1704067200000"
  "Date_UTC (Some 0) (Some 0) (Some 1) = Some (- 2208988800000)"
  "Date_UTC (Some 0) (Some 0) (Some 1) = Date_UTC (Some 1900) (Some 0) (Some 1)"
  by code_simp+

lemma fields_same_day:
  assumes "Day t1 = Day t2"
  shows "YearFromTime t1 = YearFromTime t2" and "MonthFromTime t1 = MonthFromTime t2"
    and "DateFromTime t1 = DateFromTime t2"
proof -
  show y: "YearFromTime t1 = YearFromTime t2"
    using assms by (rule YearFromTime_same_day)
  have d: "DayWithinYear t1 = DayWithinYear t2" "InLeapYear t1 = InLeapYear t2"
    using assms y by (simp_all add: DayWithinYear_def InLeapYear_def)
  show m: "MonthFromTime t1 = MonthFromTime t2"
    by (simp add: MonthFromTime_def d)
  show "DateFromTime t1 = DateFromTime t2"
    by (simp add: DateFromTime_def d m)
qed

subsection \<open>C1: the daily selection\<close>

text \<open>
  Claim C1: for every non-empty collection and every date, the daily selection is the
  record at position (ordinal day mod length), the ordinal day being the zero-based UTC
  day of the year of the date. The date of \<open>displayDailyProverb\<close> is the reading of the
  clock; for every reading and every non-empty collection that position is an index of the
  collection, and the record there is selected and shown.
\<close>

theorem displayDailyProverb_selects:
  assumes "proverbs st \<noteq> []" and "clockReading now"
  shows "nat (ordinalDay now mod int (length (proverbs st))) < length (proverbs st) \<and>
    displayDailyProverb now st =
      Returns (st\<lparr> currentProverb :=
                    Ref (proverbs st ! nat (ordinalDay now mod int (length (proverbs st)))),
                  proverbTextEl :=
                    proverb (proverbs st ! nat (ordinalDay now mod int (length (proverbs st)))),
                  translationEl := ascii ''\"''
                    @ translation (proverbs st ! nat (ordinalDay now mod int (length (proverbs st))))
                    @ ascii ''\"'',
                  meaningEl :=
                    meaning (proverbs st ! nat (ordinalDay now mod int (length (proverbs st)))) \<rparr>)"
proof -
  have "getUTCOrdinalDay (Some now) = Some (ordinalDay now)"
    using assms(2) by (rule getUTCOrdinalDay_clock)
  from daily_selection[OF this assms(1)] show ?thesis by simp
qed

text \<open>On 2024-01-05 (ordinal day 4) a collection of three records yields the record at index 1.\<close>

theorem displayDailyProverb_selects_witness:
  "clockReading 1704412800000 \<and>
   displayDailyProverb 1704412800000 (loaded [record0, record1, record2]) =
     Returns ((loaded [record0, record1, record2])
       \<lparr> currentProverb := Ref record1, proverbTextEl := ascii ''p1'',
         translationEl := ascii ''\"t1\"'', meaningEl := ascii ''m1'' \<rparr>)"
  using displayDailyProverb_selects[of "loaded [record0, record1, record2]" 1704412800000]
    jan5_2024_calendar
  by (simp add: loaded_def record1_def ascii_def)

subsection \<open>C2: the ordinal day\<close>

text \<open>
  Claim C2: for every date, \<open>getUTCOrdinalDay\<close> returns the whole number of days from the
  UTC midnight of 1 January of the date's UTC year to the UTC midnight of the date
  (\<open>ordinalDay\<close>), from the UTC year, month and day of the date alone; 2024-01-01,
  2024-01-04 and 2024-01-05 give 0, 3 and 4. The date is the reading of the clock. That
  the result depends on the three UTC fields only holds for every Date, valid or not.
\<close>

theorem getUTCOrdinalDay_whole_days:
  "(clockReading t \<longrightarrow> getUTCOrdinalDay (Some t) = Some (ordinalDay t)) \<and>
   (getUTCFullYear d = getUTCFullYear d' \<and> getUTCMonth d = getUTCMonth d'
      \<and> getUTCDate d = getUTCDate d' \<longrightarrow> getUTCOrdinalDay d = getUTCOrdinalDay d') \<and>
   getUTCOrdinalDay (Date_UTC (Some 2024) (Some 0) (Some 1)) = Some 0 \<and>
   getUTCOrdinalDay (Date_UTC (Some 2024) (Some 0) (Some 4)) = Some 3 \<and>
   getUTCOrdinalDay (Date_UTC (Some 2024) (Some 0) (Some 5)) = Some 4"
proof (intro conjI impI)
  assume "clockReading t"
  then show "getUTCOrdinalDay (Some t) = Some (ordinalDay t)"
    by (rule getUTCOrdinalDay_clock)
next
  assume "getUTCFullYear d = getUTCFullYear d' \<and> getUTCMonth d = getUTCMonth d'
            \<and> getUTCDate d = getUTCDate d'"
  then have "getUTCFullYear d = getUTCFullYear d'" and "getUTCMonth d = getUTCMonth d'"
    and "getUTCDate d = getUTCDate d'"
    by blast+
  then show "getUTCOrdinalDay d = getUTCOrdinalDay d'"
    by (rule getUTCOrdinalDay_fields)
next
  show "getUTCOrdinalDay (Date_UTC (Some 2024) (Some 0) (Some 1)) = Some 0"
    by code_simp
next
  show "getUTCOrdinalDay (Date_UTC (Some 2024) (Some 0) (Some 4)) = Some 3"
    by code_simp
next
  show "getUTCOrdinalDay (Date_UTC (Some 2024) (Some 0) (Some 5)) = Some 4"
    by code_simp
qed

text \<open>Noon of 2024-03-01, in a leap year and after February: ordinal day 60.\<close>

theorem getUTCOrdinalDay_whole_days_witness:
  "clockReading 1709294400000 \<and> YearFromTime 1709294400000 = 2024 \<and>
   MonthFromTime 1709294400000 = 2 \<and> getUTCOrdinalDay (Some 1709294400000) = Some 60"
  using getUTCOrdinalDay_whole_days[of 1709294400000] mar1_2024_calendar
  by simp

subsection \<open>C3: one proverb per UTC day\<close>

text \<open>
  Claim C3: two date-times on the same UTC calendar day give the same daily proverb,
  whatever the time of day; the time zone of the caller is no input of the computation,
  which reads UTC fields only. Two time values are on the same UTC day when their day
  numbers agree. The theorem holds for every collection and every state of the page.
\<close>

theorem same_day_same_proverb:
  assumes "Day t1 = Day t2"
  shows "getUTCOrdinalDay (Some t1) = getUTCOrdinalDay (Some t2) \<and>
         displayDailyProverb t1 st = displayDailyProverb t2 st"
proof -
  have "getUTCOrdinalDay (Some t1) = getUTCOrdinalDay (Some t2)"
    using fields_same_day[OF assms]
    by (intro getUTCOrdinalDay_fields)
       (simp_all add: getUTCFullYear_def getUTCMonth_def getUTCDate_def)
  then show ?thesis
    by (simp add: displayDailyProverb_def idx_def)
qed

text \<open>The first and the last millisecond of 2024-01-05.\<close>

theorem same_day_same_proverb_witness:
  "Day 1704412800000 = Day 1704499199999 \<and>
   displayDailyProverb 1704412800000 (loaded [record0, record1, record2])
     = displayDailyProverb 1704499199999 (loaded [record0, record1, record2])"
  using same_day_same_proverb[OF jan5_2024_same_day, of "loaded [record0, record1, record2]"]
    jan5_2024_same_day
  by simp

lemma ordinalDay_next_day:
  assumes "YearFromTime t2 = YearFromTime t1" and "Day t2 = Day t1 + 1"
  shows "ordinalDay t2 = ordinalDay t1 + 1"
  using assms by (simp add: ordinalDay_DayWithinYear DayWithinYear_def)

subsection \<open>C4: consecutive ordinal days\<close>

text \<open>
  Claim C4: for a collection of length \<open>N\<close> and two ordinal days \<open>k\<close> and \<open>k + 1\<close> of the
  same calendar year, the index selected for day \<open>k + 1\<close> is the index selected for day
  \<open>k\<close> plus 1, modulo \<open>N\<close>. The index is the constant \<^verbatim>\<open>idx\<close> of
  \<^verbatim>\<open>displayDailyProverb\<close>, and a day is given by a reading of the clock on it. It holds
  for any two readings whose ordinal days are \<open>k\<close> and \<open>k + 1\<close>, and the next day of the
  same year is such a day.
\<close>

theorem consecutive_days_consecutive_indices:
  assumes "ps \<noteq> []" and "clockReading t1" and "clockReading t2"
    and "ordinalDay t1 = k" and "ordinalDay t2 = k + 1"
  shows "\<exists>i. 0 \<le> i \<and> i < int (length ps) \<and> idx t1 ps = Some i
             \<and> idx t2 ps = Some ((i + 1) mod int (length ps))"
proof -
  have "getUTCOrdinalDay (Some t1) = Some k"
    using getUTCOrdinalDay_clock[OF assms(2)] assms(4) by simp
  moreover have "getUTCOrdinalDay (Some t2) = Some (k + 1)"
    using getUTCOrdinalDay_clock[OF assms(3)] assms(5) by simp
  ultimately show ?thesis
    using assms(1) by (rule idx_step)
qed

text \<open>2024-01-04 and 2024-01-05, ordinal days 3 and 4, three records: indices 0 and 1.\<close>

lemma jan4_jan5_2024:
  "clockReading 1704326400000 \<and> clockReading 1704412800000 \<and>
   YearFromTime 1704326400000 = 2024 \<and> YearFromTime 1704412800000 = 2024 \<and>
   ordinalDay 1704326400000 = 3 \<and> ordinalDay 1704412800000 = 3 + 1 \<and>
   idx 1704326400000 [record0, record1, record2] = Some 0"
  by code_simp

theorem consecutive_days_consecutive_indices_witness:
  "clockReading 1704326400000 \<and> clockReading 1704412800000 \<and>
   ordinalDay 1704326400000 = 3 \<and> ordinalDay 1704412800000 = 3 + 1 \<and>
   idx 1704326400000 [record0, record1, record2] = Some 0 \<and>
   idx 1704412800000 [record0, record1, record2] = Some 1"
proof -
  have "[record0, record1, record2] \<noteq> []" by simp
  from consecutive_days_consecutive_indices[OF this, of 1704326400000 1704412800000 3]
  obtain i where i: "idx 1704326400000 [record0, record1, record2] = Some i"
    "idx 1704412800000 [record0, record1, record2] = Some ((i + 1) mod 3)"
    using jan4_jan5_2024 by auto
  with jan4_jan5_2024 show ?thesis by simp
qed

subsection \<open>C5: the empty collection\<close>

text \<open>
  Claim C5: on the empty collection, whatever the date and the random value, both display
  functions return without a selection and leave the whole state of the page as it was;
  neither throws.
\<close>

theorem empty_collection_no_selection:
  assumes "proverbs st = []"
  shows "displayDailyProverb now st = Returns st \<and> displayRandomProverb k st = Returns st"
  using assms by (simp add: displayDailyProverb_def displayRandomProverb_def)

text \<open>The initial page, on 2024-01-05 and with the random value 1/2.\<close>

theorem empty_collection_no_selection_witness:
  "proverbs (initial [] [] [] []) = [] \<and>
   displayDailyProverb 1704412800000 (initial [] [] [] []) = Returns (initial [] [] [] []) \<and>
   displayRandomProverb (2 ^ 1073) (initial [] [] [] []) = Returns (initial [] [] [] [])"
  using empty_collection_no_selection[of "initial [] [] [] []" 1704412800000 "2 ^ 1073"]
  by (simp add: initial_def)

subsection \<open>C6: the copied text\<close>

text \<open>
  Claim C6: for a selected record with proverb \<open>p\<close>, translation \<open>t\<close> and meaning \<open>m\<close>,
  copying hands the clipboard exactly \<open>p\<close>, a blank line, the line "Translation: " with
  \<open>t\<close>, and the line "Meaning: " with \<open>m\<close>: this is the text of the write that
  \<open>copyProverb\<close> starts, and the content of the clipboard once that write is fulfilled.
\<close>

theorem copy_text_layout:
  assumes "currentProverb st = Ref r"
  shows "copyProverb True st =
           Returns (st\<lparr> pendingWrites := pendingWrites st
              @ [proverb r @ [0x0A, 0x0A] @ ascii ''Translation: '' @ translation r
                 @ [0x0A] @ ascii ''Meaning: '' @ meaning r] \<rparr>) \<and>
         clipboard (writeTextSettled Fulfilled (listener (copyProverb True (st\<lparr> pendingWrites := [] \<rparr>))))
           = Some (proverb r @ [0x0A, 0x0A] @ ascii ''Translation: '' @ translation r
                   @ [0x0A] @ ascii ''Meaning: '' @ meaning r)"
  using assms by (simp add: copyProverb_def textToCopy_def writeTextSettled_def ascii_def)

text \<open>The example of the specification.\<close>

theorem copy_text_layout_witness:
  "clipboard (writeTextSettled Fulfilled
      (listener (copyProverb True ((loaded [alef]) \<lparr> currentProverb := Ref alef, pendingWrites := [] \<rparr>))))
     = Some ([0x0627, 0x0644, 0x0641] @ [0x0A] @ [0x0A] @ ascii ''Translation: A'' @ [0x0A]
             @ ascii ''Meaning: M'')"
  using copy_text_layout[of "(loaded [alef]) \<lparr> currentProverb := Ref alef \<rparr>" alef]
  by (simp add: alef_def ascii_def)

subsection \<open>C7: failures of the clipboard and of the share sheet\<close>

text \<open>
  Claim C7: every failure of the clipboard or share API is reported and handled, and
  does not escape as an unhandled rejection. \<^verbatim>\<open>shareProverb\<close> does this with
  \<^verbatim>\<open>.catch(console.error)\<close>; \<^verbatim>\<open>copyProverb\<close> gives \<^verbatim>\<open>then\<close> a fulfilment handler
  only. With a record selected, a rejected clipboard write ends as an unhandled rejection:
  nothing is written to the console, no alert is shown and the button keeps its label,
  while the same rejection of a share is logged and handled.
\<close>

theorem copy_rejection_unhandled:
  "unhandled (writeTextSettled (Rejected (HostError (ascii ''NotAllowedError'')))
       (listener (copyProverb True ((loaded [alef]) \<lparr> currentProverb := Ref alef \<rparr>))))
     = [HostError (ascii ''NotAllowedError'')] \<and>
   console (writeTextSettled (Rejected (HostError (ascii ''NotAllowedError'')))
       (listener (copyProverb True ((loaded [alef]) \<lparr> currentProverb := Ref alef \<rparr>)))) = [] \<and>
   alerts (writeTextSettled (Rejected (HostError (ascii ''NotAllowedError'')))
       (listener (copyProverb True ((loaded [alef]) \<lparr> currentProverb := Ref alef \<rparr>)))) = [] \<and>
   copyBtn (writeTextSettled (Rejected (HostError (ascii ''NotAllowedError'')))
       (listener (copyProverb True ((loaded [alef]) \<lparr> currentProverb := Ref alef \<rparr>))))
     = copyBtn (loaded [alef]) \<and>
   unhandled (shareSettled (Rejected (HostError (ascii ''NotAllowedError'')))
       (listener (shareProverb True ((loaded [alef]) \<lparr> currentProverb := Ref alef \<rparr>)))) = [] \<and>
   console (shareSettled (Rejected (HostError (ascii ''NotAllowedError'')))
       (listener (shareProverb True ((loaded [alef]) \<lparr> currentProverb := Ref alef \<rparr>))))
     = [(None, HostError (ascii ''NotAllowedError''))]"
  by (simp add: copyProverb_def shareProverb_def writeTextSettled_def shareSettled_def
      loaded_def initial_def)

subsection \<open>C8: the random selection\<close>

text \<open>
  Claim C8: on a non-empty collection, whatever double in \<open>[0, 1)\<close> the random source
  returns, \<^verbatim>\<open>Math.floor(Math.random() * proverbs.length)\<close> is an index of the collection,
  and the record there is selected and shown. The product is the rounded product of the
  host; rounding cannot lift it to the length.
\<close>

theorem displayRandomProverb_in_bounds:
  assumes "proverbs st \<noteq> []" and "randomValue k"
  shows "\<exists>i. Math_floor (double_times k (int (length (proverbs st)))) = Some (int i) \<and>
           i < length (proverbs st) \<and>
           displayRandomProverb k st =
             Returns (st\<lparr> currentProverb := Ref (proverbs st ! i),
                         proverbTextEl := proverb (proverbs st ! i),
                         translationEl := ascii ''\"'' @ translation (proverbs st ! i) @ ascii ''\"'',
                         meaningEl := meaning (proverbs st ! i) \<rparr>)"
  using assms by (rule random_selection)

text \<open>
  The random value 1/2 on three records: the product 3/2 is a double, its floor is 1.
\<close>

lemma half_bitlen: "bitlen (2 ^ 1073 * 3) = 1075"
proof -
  have "bitlen (3 * 2 ^ 1073) = bitlen 3 + int 1073"
    by (rule bitlen_pow2) simp
  moreover have "bitlen 3 = 2"
    by code_simp
  ultimately show ?thesis
    by (simp add: mult.commute)
qed

lemma half_times_three: "Math_floor (double_times (2 ^ 1073) 3) = Some 1"
  using half_bitlen by (simp add: Math_floor_def double_times_def round53_def Let_def)

theorem displayRandomProverb_in_bounds_witness:
  "randomValue (2 ^ 1073) \<and>
   displayRandomProverb (2 ^ 1073) (loaded [record0, record1, record2]) =
     Returns ((loaded [record0, record1, record2])
       \<lparr> currentProverb := Ref record1, proverbTextEl := ascii ''p1'',
         translationEl := ascii ''\"t1\"'', meaningEl := ascii ''m1'' \<rparr>)"
proof -
  have r: "randomValue (2 ^ 1073)"
    by (simp add: randomValue_def)
  have p: "proverbs (loaded [record0, record1, record2]) \<noteq> []"
    by (simp add: loaded_def)
  from displayRandomProverb_in_bounds[OF p r]
  show ?thesis
    using r half_times_three by (auto simp: loaded_def record1_def ascii_def)
qed

subsection \<open>C9: the shared text\<close>

text \<open>
  Claim C9: the shared text is the header "Pashto Proverb:", the proverb, a blank line and
  "Translation: " with the translation; the meaning is not part of it. The text is the
  same whatever the meaning of the record is, whereas the copied text changes with the
  meaning; and it is the text that \<open>shareProverb\<close> passes to the share sheet.
\<close>

theorem share_text_omits_meaning:
  "textToShare r = ascii ''Pashto Proverb:'' @ [0x0A] @ proverb r @ [0x0A, 0x0A]
                     @ ascii ''Translation: '' @ translation r \<and>
   textToShare (r\<lparr> meaning := m \<rparr>) = textToShare r \<and>
   (textToCopy (r\<lparr> meaning := m \<rparr>) = textToCopy r) = (m = meaning r) \<and>
   shareProverb True (st\<lparr> currentProverb := Ref r \<rparr>) =
     Returns (st\<lparr> currentProverb := Ref r,
                 pendingShares := pendingShares st
                   @ [(ascii ''Pashto Proverb of the Day'', textToShare r)] \<rparr>)"
  by (simp add: textToShare_def textToCopy_def shareProverb_def ascii_def)

theorem share_text_omits_meaning_witness:
  "textToShare alef = ascii ''Pashto Proverb:'' @ [0x0A] @ [0x0627, 0x0644, 0x0641] @ [0x0A, 0x0A]
                     @ ascii ''Translation: A'' \<and>
   textToShare (alef\<lparr> meaning := ascii ''N'' \<rparr>) = textToShare alef \<and>
   textToCopy (alef\<lparr> meaning := ascii ''N'' \<rparr>) \<noteq> textToCopy alef"
  using share_text_omits_meaning[of alef "ascii ''N''"]
  by (simp add: alef_def ascii_def)

subsection \<open>C10: the current selection\<close>



end
